theory Spec2Isabelle
  imports Complex_Main "HOL-Library.Word"
begin

section \<open>Python primitives used by camera.py\<close>

text \<open>
  Exceptions are values. A method call on an object either returns a value and leaves
  the object in a new state, or raises and leaves the object in the state reached at the
  raise, or never returns because it waits for a \<open>threading.Lock\<close> that is held
  (the lock is not reentrant).
\<close>

datatype py_error =
  IndexError | ZeroDivisionError | KeyError | AttributeError
  | TypeError | ValueError | OverflowError | RuntimeError

datatype ('a, 's) outcome = Returns 'a 's | Raises py_error 's | Blocks

text \<open>\<open>xs[i]\<close> and \<open>xs[i] = v\<close> on a Python list: a negative index counts from the end.\<close>

definition py_getitem :: "'a list \<Rightarrow> int \<Rightarrow> py_error + 'a" where
  "py_getitem xs i =
     (let n = int (length xs); j = (if i < 0 then i + n else i)
      in if 0 \<le> j \<and> j < n then Inr (xs ! nat j) else Inl IndexError)"

definition py_setitem :: "'a list \<Rightarrow> int \<Rightarrow> 'a \<Rightarrow> py_error + 'a list" where
  "py_setitem xs i v =
     (let n = int (length xs); j = (if i < 0 then i + n else i)
      in if 0 \<le> j \<and> j < n then Inr (xs[nat j := v]) else Inl IndexError)"

text \<open>\<open>a % b\<close> on Python ints: the result has the sign of \<open>b\<close>, as \<open>mod\<close> on \<open>int\<close>.\<close>

definition py_mod :: "int \<Rightarrow> int \<Rightarrow> py_error + int" where
  "py_mod a b = (if b = 0 then Inl ZeroDivisionError else Inr (a mod b))"

section \<open>Frame\<close>

text \<open>
  \<open>data\<close> is a 2-d array of \<open>uint16\<close>; \<open>timestamp\<close> is a float of which only the
  value is kept (no arithmetic is done on it here).
\<close>

record Frame =
  data :: "16 word list list"
  frame_number :: int
  timestamp :: real

section \<open>RingBuffer\<close>

text \<open>
  \<open>size_rb\<close> is the attribute \<open>__size\<close>. A slot holds \<open>None\<close> until it is written.
  \<open>lock\<close> is true while the \<open>Lock\<close> is held.
\<close>

record RingBuffer =
  size_rb :: int
  frames :: "Frame option list"
  lock :: bool
  write_index :: int
  read_index :: int
  write_count :: int
  read_count :: int

text \<open>\<open>range(0, size)\<close> is empty for \<open>size \<le> 0\<close>, so the slot list has \<open>nat sz\<close> entries
  for the argument \<open>sz\<close>.\<close>

definition RingBuffer_init :: "int \<Rightarrow> RingBuffer" where
  "RingBuffer_init sz =
     \<lparr>size_rb = sz, frames = replicate (nat sz) None, lock = False,
      write_index = 0, read_index = 0, write_count = 0, read_count = 0\<rparr>"

definition RingBuffer_push :: "Frame \<Rightarrow> RingBuffer \<Rightarrow> (unit, RingBuffer) outcome" where
  "RingBuffer_push frame rb =
     (if lock rb then Blocks
      else
        let rb = rb\<lparr>lock := True\<rparr> in
        case py_setitem (frames rb) (write_index rb) (Some frame) of
          Inl e \<Rightarrow> Raises e rb
        | Inr fs \<Rightarrow>
            let rb = rb\<lparr>frames := fs\<rparr> in
            (case py_mod (write_index rb + 1) (size_rb rb) of
               Inl e \<Rightarrow> Raises e rb
             | Inr i \<Rightarrow>
                 let rb = rb\<lparr>write_index := i\<rparr>;
                     rb = rb\<lparr>write_count := write_count rb + 1\<rparr>;
                     rb = rb\<lparr>lock := False\<rparr>
                 in Returns () rb))"

text \<open>The result \<open>None\<close> of \<open>pop\<close> is Python's \<open>None\<close>: the early return, or an unwritten slot.\<close>

definition RingBuffer_pop :: "RingBuffer \<Rightarrow> (Frame option, RingBuffer) outcome" where
  "RingBuffer_pop rb =
     (if lock rb then Blocks
      else
        let rb = rb\<lparr>lock := True\<rparr> in
        if read_count rb > write_count rb \<or> read_index rb = write_index rb
        then (let rb = rb\<lparr>lock := False\<rparr> in Returns None rb)
        else
          case py_getitem (frames rb) (read_index rb) of
            Inl e \<Rightarrow> Raises e rb
          | Inr frame \<Rightarrow>
              (case py_mod (read_index rb + 1) (size_rb rb) of
                 Inl e \<Rightarrow> Raises e rb
               | Inr i \<Rightarrow>
                   let rb = rb\<lparr>read_index := i\<rparr>;
                       rb = rb\<lparr>read_count := read_count rb + 1\<rparr>;
                       rb = rb\<lparr>lock := False\<rparr>
                   in Returns frame rb))"

definition RingBuffer_sync :: "RingBuffer \<Rightarrow> (unit, RingBuffer) outcome" where
  "RingBuffer_sync rb =
     (if lock rb then Blocks
      else
        let rb = rb\<lparr>lock := True\<rparr>;
            rb = rb\<lparr>read_index := write_index rb\<rparr>;
            rb = rb\<lparr>read_count := 0\<rparr>;
            rb = rb\<lparr>write_count := 0\<rparr>;
            rb = rb\<lparr>lock := False\<rparr>
        in Returns () rb)"

subsection \<open>Call sequences and reachable states\<close>

text \<open>
  \<open>pushes fs rb\<close> calls \<open>push\<close> with each frame of \<open>fs\<close> in turn, and \<open>pops k rb\<close>
  calls \<open>pop\<close> \<open>k\<close> times and collects the results; both stop at the first call that
  does not return.
\<close>

fun pushes :: "Frame list \<Rightarrow> RingBuffer \<Rightarrow> (unit, RingBuffer) outcome" where
  "pushes [] rb = Returns () rb"
| "pushes (f # fs) rb =
     (case RingBuffer_push f rb of
        Returns _ rb' \<Rightarrow> pushes fs rb'
      | Raises e rb' \<Rightarrow> Raises e rb'
      | Blocks \<Rightarrow> Blocks)"

fun pops :: "nat \<Rightarrow> RingBuffer \<Rightarrow> (Frame option list, RingBuffer) outcome" where
  "pops 0 rb = Returns [] rb"
| "pops (Suc k) rb =
     (case RingBuffer_pop rb of
        Returns r rb' \<Rightarrow>
          (case pops k rb' of
             Returns rs rb'' \<Rightarrow> Returns (r # rs) rb''
           | Raises e rb'' \<Rightarrow> Raises e rb''
           | Blocks \<Rightarrow> Blocks)
      | Raises e rb' \<Rightarrow> Raises e rb'
      | Blocks \<Rightarrow> Blocks)"

text \<open>
  The states of a buffer of the given size after any finite sequence of completed
  (returned) \<open>push\<close>, \<open>pop\<close> and \<open>sync\<close> calls. A call that raises leaves the
  lock held, and no later call on that buffer completes (\<open>locked_blocks\<close>).
\<close>

inductive reachable :: "int \<Rightarrow> RingBuffer \<Rightarrow> bool" for C :: int where
  reach_init: "reachable C (RingBuffer_init C)"
| reach_push: "reachable C rb \<Longrightarrow> RingBuffer_push f rb = Returns u rb' \<Longrightarrow> reachable C rb'"
| reach_pop: "reachable C rb \<Longrightarrow> RingBuffer_pop rb = Returns r rb' \<Longrightarrow> reachable C rb'"
| reach_sync: "reachable C rb \<Longrightarrow> RingBuffer_sync rb = Returns u rb' \<Longrightarrow> reachable C rb'"

text \<open>
  The invariant of the reachable states: the indices stay inside the slot list, the
  distance from the read index to the write index (going round) is at most the number
  of writes not yet read, and every slot in that stretch has been written. For a size
  that is not positive the slot list is empty and nothing can be pushed.
\<close>

definition rb_inv :: "int \<Rightarrow> RingBuffer \<Rightarrow> bool" where
  "rb_inv C rb \<longleftrightarrow>
     size_rb rb = C \<and> length (frames rb) = nat C \<and> \<not> lock rb \<and>
     (if 0 < C
      then 0 \<le> read_index rb \<and> read_index rb < C \<and> 0 \<le> write_index rb \<and> write_index rb < C
      else read_index rb = 0 \<and> write_index rb = 0 \<and> read_count rb = 0 \<and> write_count rb = 0) \<and>
     0 \<le> read_count rb \<and>
     (write_index rb - read_index rb) mod C \<le> write_count rb - read_count rb \<and>
     (\<forall>j. 0 \<le> j \<and> j < C \<and> (j - read_index rb) mod C < (write_index rb - read_index rb) mod C \<longrightarrow>
          frames rb ! nat j \<noteq> None)"

text \<open>The unread slots when the read index has not passed the write index.\<close>

definition pending :: "RingBuffer \<Rightarrow> Frame option list" where
  "pending rb = map (\<lambda>j. frames rb ! j) [nat (read_index rb) ..< nat (write_index rb)]"

text \<open>Frames used as concrete inputs.\<close>

definition frame_a :: Frame where
  "frame_a = \<lparr>data = [[100, 100], [100, 100]], frame_number = 2, timestamp = 1\<rparr>"

definition frame_b :: Frame where
  "frame_b = \<lparr>data = [[100, 100], [100, 100]], frame_number = 3, timestamp = 2\<rparr>"

definition frame_c :: Frame where
  "frame_c = \<lparr>data = [[100, 100], [100, 100]], frame_number = 5, timestamp = 3\<rparr>"

section \<open>Python numbers\<close>

text \<open>
  A Python float is a finite value, an infinity or NaN. The built-in values a caller
  can pass to \<open>Camera.set\<close>: \<open>None\<close>, a bool, an int, a float, a complex (real and
  imaginary part) or a str.
\<close>

datatype pyfloat = Fin real | PInf | NInf | NaN

datatype pyval =
  PyNone | PyBool bool | PyInt int | PyFloat pyfloat | PyComplex pyfloat pyfloat
  | PyStr string

text \<open>\<open>isinstance(v, numbers.Number)\<close>; \<open>bool\<close> is a subclass of \<open>int\<close>.\<close>

fun is_Number :: "pyval \<Rightarrow> bool" where
  "is_Number (PyBool b) = True"
| "is_Number (PyInt i) = True"
| "is_Number (PyFloat x) = True"
| "is_Number (PyComplex x y) = True"
| "is_Number PyNone = False"
| "is_Number (PyStr s) = False"

text \<open>
  The position of a bool, int or float on the extended number line. Python compares
  an int with a float by value, without rounding the int.
\<close>

fun real_value :: "pyval \<Rightarrow> pyfloat option" where
  "real_value (PyBool b) = Some (Fin (if b then 1 else 0))"
| "real_value (PyInt i) = Some (Fin (of_int i))"
| "real_value (PyFloat x) = Some x"
| "real_value (PyComplex x y) = None"
| "real_value PyNone = None"
| "real_value (PyStr s) = None"

text \<open>\<open>x < y\<close> on floats: every comparison with NaN is false.\<close>

fun float_lt :: "pyfloat \<Rightarrow> pyfloat \<Rightarrow> bool" where
  "float_lt NaN y = False"
| "float_lt x NaN = False"
| "float_lt (Fin a) (Fin b) = (a < b)"
| "float_lt (Fin a) PInf = True"
| "float_lt (Fin a) NInf = False"
| "float_lt NInf (Fin b) = True"
| "float_lt NInf PInf = True"
| "float_lt NInf NInf = False"
| "float_lt PInf y = False"

text \<open>
  \<open>a < b\<close> where at least one operand is a bool, int or float, as at every comparison
  in camera.py: ordering a complex, a str or \<open>None\<close> against a number raises TypeError.
  \<open>a > b\<close> is \<open>py_lt b a\<close>.
\<close>

definition py_lt :: "pyval \<Rightarrow> pyval \<Rightarrow> py_error + bool" where
  "py_lt a b =
     (case real_value a of
        None \<Rightarrow> Inl TypeError
      | Some x \<Rightarrow> (case real_value b of None \<Rightarrow> Inl TypeError | Some y \<Rightarrow> Inr (float_lt x y)))"

text \<open>\<open>min(a, b)\<close>: \<open>b\<close> replaces \<open>a\<close> only when \<open>b < a\<close>.\<close>

definition py_min :: "pyval \<Rightarrow> pyval \<Rightarrow> py_error + pyval" where
  "py_min a b =
     (case py_lt b a of Inl e \<Rightarrow> Inl e | Inr lt \<Rightarrow> Inr (if lt then b else a))"

text \<open>
  \<open>float(v)\<close> for a value that passed \<open>isinstance(v, numbers.Number)\<close>. The conversion
  of an int is taken as exact, which it is for \<open>|i| \<le> 2^53\<close>; every int that reaches it
  in camera.py has passed a range check or is an initial feature value.
\<close>

fun py_float :: "pyval \<Rightarrow> py_error + pyfloat" where
  "py_float (PyBool b) = Inr (Fin (if b then 1 else 0))"
| "py_float (PyInt i) = Inr (Fin (of_int i))"
| "py_float (PyFloat x) = Inr x"
| "py_float (PyComplex x y) = Inl TypeError"
| "py_float PyNone = Inl TypeError"
| "py_float (PyStr s) = Inl TypeError"

text \<open>\<open>int(v)\<close> for a value that passed the isinstance check: a float is truncated towards zero.\<close>

fun py_int :: "pyval \<Rightarrow> py_error + int" where
  "py_int (PyBool b) = Inr (if b then 1 else 0)"
| "py_int (PyInt i) = Inr i"
| "py_int (PyFloat (Fin r)) = Inr (if 0 \<le> r then \<lfloor>r\<rfloor> else \<lceil>r\<rceil>)"
| "py_int (PyFloat NaN) = Inl ValueError"
| "py_int (PyFloat PInf) = Inl OverflowError"
| "py_int (PyFloat NInf) = Inl OverflowError"
| "py_int (PyComplex x y) = Inl TypeError"
| "py_int PyNone = Inl TypeError"
| "py_int (PyStr s) = Inl TypeError"

text \<open>
  \<open>x / v\<close> for a float \<open>x\<close> and a bool, int or float \<open>v\<close>. The rounded quotient of two
  floats is not computed here: the IEEE-754 division \<open>fdiv\<close> is a parameter of every
  function that divides, and nothing is assumed about it. A zero divisor raises.
\<close>

definition py_truediv ::
  "(pyfloat \<Rightarrow> pyfloat \<Rightarrow> pyfloat) \<Rightarrow> pyfloat \<Rightarrow> pyval \<Rightarrow> py_error + pyfloat" where
  "py_truediv fdiv x v =
     (case py_float v of
        Inl e \<Rightarrow> Inl e
      | Inr y \<Rightarrow> if y = Fin 0 then Inl ZeroDivisionError else Inr (fdiv x y))"

text \<open>\<open>d[k]\<close> on a dict.\<close>

definition dict_get :: "('k \<rightharpoonup> 'v) \<Rightarrow> 'k \<Rightarrow> py_error + 'v" where
  "dict_get d k = (case d k of None \<Rightarrow> Inl KeyError | Some v \<Rightarrow> Inr v)"

section \<open>CameraDataThread\<close>

text \<open>
  The fields of the class, and of \<open>threading.Thread\<close> the two facts its \<open>start\<close> and
  \<open>join\<close> depend on: \<open>Thread_started\<close> (\<open>start\<close> has been called on this object) and
  \<open>Thread_alive\<close> (\<open>run\<close> is executing). The buffer the thread pushes to is the
  \<open>RingBuffer\<close> of the \<open>Camera\<close> that created it, and is kept there. The random
  generator is not part of the state: its draws are arguments. \<open>run\<close> and
  \<open>__generateFrame\<close> read the wall clock and run beside the caller; of the producer's
  loop only the frame numbering is described here.
\<close>

record CameraDataThread =
  frame_time_sec :: pyfloat
  exposure_time :: pyval
  width :: pyval
  height :: pyval
  frame_number_thread :: int
  is_started :: bool
  Thread_started :: bool
  Thread_alive :: bool

definition CameraDataThread_init :: CameraDataThread where
  "CameraDataThread_init =
     \<lparr>frame_time_sec = Fin 1, exposure_time = PyFloat (Fin 1), width = PyInt 640,
      height = PyInt 512, frame_number_thread = 1, is_started = False,
      Thread_started = False, Thread_alive = False\<rparr>"

text \<open>
  \<open>rand_value\<close> is the draw \<open>rng.integers(0, 65535)\<close> and \<open>skip\<close> the draw
  \<open>rng.integers(0, 5)\<close>, which is made only when \<open>rand_value < 650\<close>; numpy excludes
  the upper bound. The numpy integers are read as their values.
\<close>

definition CameraDataThread_generageFrameNumber :: "int \<Rightarrow> int \<Rightarrow> CameraDataThread \<Rightarrow> int" where
  "CameraDataThread_generageFrameNumber rand_value skip t =
     (let frame_count = 1;
          frame_count = (if rand_value < 650 then frame_count + skip else frame_count);
          frame_number = frame_number_thread t + frame_count
      in frame_number)"

text \<open>
  \<open>Thread.start\<close> raises RuntimeError when called a second time on the same object;
  \<open>run\<close> loops while \<open>is_started\<close> holds. \<open>Thread.join\<close> raises RuntimeError on a
  thread that was never started, and returns once \<open>run\<close> has ended, which it never
  does while \<open>is_started\<close> holds.
\<close>

definition Thread_start :: "CameraDataThread \<Rightarrow> (unit, CameraDataThread) outcome" where
  "Thread_start t =
     (if Thread_started t then Raises RuntimeError t
      else Returns () (t\<lparr>Thread_started := True, Thread_alive := is_started t\<rparr>))"

definition Thread_join :: "CameraDataThread \<Rightarrow> (unit, CameraDataThread) outcome" where
  "Thread_join t =
     (if \<not> Thread_started t then Raises RuntimeError t
      else if Thread_alive t \<and> is_started t then Blocks
      else Returns () (t\<lparr>Thread_alive := False\<rparr>))"

definition CameraDataThread_stop :: "CameraDataThread \<Rightarrow> (unit, CameraDataThread) outcome" where
  "CameraDataThread_stop t =
     (if is_started t = False then Returns () t
      else
        let t = t\<lparr>is_started := False\<rparr> in
        Thread_join t)"

definition CameraDataThread_start :: "CameraDataThread \<Rightarrow> (unit, CameraDataThread) outcome" where
  "CameraDataThread_start t =
     (case CameraDataThread_stop t of
        Returns u t \<Rightarrow>
          let t = t\<lparr>is_started := True\<rparr> in
          Thread_start t
      | Raises e t \<Rightarrow> Raises e t
      | Blocks \<Rightarrow> Blocks)"

definition CameraDataThread_setFrameRate ::
  "(pyfloat \<Rightarrow> pyfloat \<Rightarrow> pyfloat) \<Rightarrow> pyval \<Rightarrow> CameraDataThread \<Rightarrow> py_error + CameraDataThread" where
  "CameraDataThread_setFrameRate fdiv framerate t =
     (case py_truediv fdiv (Fin 1) framerate of
        Inl e \<Rightarrow> Inl e
      | Inr x \<Rightarrow> Inr (t\<lparr>frame_time_sec := x\<rparr>))"

definition CameraDataThread_setExposureTime :: "pyval \<Rightarrow> CameraDataThread \<Rightarrow> CameraDataThread" where
  "CameraDataThread_setExposureTime exposuretime t = t\<lparr>exposure_time := exposuretime\<rparr>"

definition CameraDataThread_setWidth :: "pyval \<Rightarrow> CameraDataThread \<Rightarrow> CameraDataThread" where
  "CameraDataThread_setWidth w t = t\<lparr>width := w\<rparr>"

definition CameraDataThread_setHeight :: "pyval \<Rightarrow> CameraDataThread \<Rightarrow> CameraDataThread" where
  "CameraDataThread_setHeight h t = t\<lparr>height := h\<rparr>"

section \<open>Camera\<close>

text \<open>
  \<open>thread\<close> is \<open>None\<close> until a producer has been created. \<open>get_frame\<close> polls
  \<open>pop\<close> against the wall clock and is not described here.
\<close>

record Camera =
  features :: "string \<rightharpoonup> pyval"
  buffer :: RingBuffer
  thread :: "CameraDataThread option"

definition Camera_init :: Camera where
  "Camera_init =
     \<lparr>features =
        [''framerate'' \<mapsto> PyInt 10, ''exposuretime'' \<mapsto> PyInt 1, ''width'' \<mapsto> PyInt 640,
         ''height'' \<mapsto> PyInt 512, ''start'' \<mapsto> PyNone, ''stop'' \<mapsto> PyNone,
         ''isstarted'' \<mapsto> PyBool False],
      buffer = RingBuffer_init 100,
      thread = None\<rparr>"

definition Camera_getFrameRate :: "Camera \<Rightarrow> py_error + pyval" where
  "Camera_getFrameRate cam = dict_get (features cam) ''framerate''"

definition Camera_getExposureTime :: "Camera \<Rightarrow> py_error + pyval" where
  "Camera_getExposureTime cam = dict_get (features cam) ''exposuretime''"

definition Camera_getWidth :: "Camera \<Rightarrow> py_error + pyval" where
  "Camera_getWidth cam = dict_get (features cam) ''width''"

definition Camera_getHeight :: "Camera \<Rightarrow> py_error + pyval" where
  "Camera_getHeight cam = dict_get (features cam) ''height''"

definition Camera_isStarted :: "Camera \<Rightarrow> py_error + pyval" where
  "Camera_isStarted cam = dict_get (features cam) ''isstarted''"

definition Camera_get :: "string \<Rightarrow> Camera \<Rightarrow> py_error + pyval" where
  "Camera_get feature_name cam =
     (if feature_name = ''framerate'' then Camera_getFrameRate cam
      else if feature_name = ''exposuretime'' then Camera_getExposureTime cam
      else if feature_name = ''width'' then Camera_getWidth cam
      else if feature_name = ''height'' then Camera_getHeight cam
      else if feature_name = ''isstarted'' then Camera_isStarted cam
      else Inr PyNone)"

definition Camera_createThread :: "Camera \<Rightarrow> Camera" where
  "Camera_createThread cam =
     (if thread cam = None then cam\<lparr>thread := Some CameraDataThread_init\<rparr> else cam)"

definition Camera_adjustExposureTime ::
  "(pyfloat \<Rightarrow> pyfloat \<Rightarrow> pyfloat) \<Rightarrow> pyval \<Rightarrow> Camera \<Rightarrow> py_error + pyval" where
  "Camera_adjustExposureTime fdiv framerate cam =
     (case py_truediv fdiv (Fin 1000) framerate of
        Inl e \<Rightarrow> Inl e
      | Inr frame_time \<Rightarrow>
          (case dict_get (features cam) ''exposuretime'' of
             Inl e \<Rightarrow> Inl e
           | Inr exposure \<Rightarrow> py_min exposure (PyFloat frame_time)))"

text \<open>
  A method call on \<open>self.__thread\<close> raises AttributeError while the attribute is
  \<open>None\<close>. In the setters below the state returned with \<open>Raises\<close> is the state of the
  camera when the exception leaves the method.
\<close>

definition Camera_setFrameRate ::
  "(pyfloat \<Rightarrow> pyfloat \<Rightarrow> pyfloat) \<Rightarrow> pyval \<Rightarrow> Camera \<Rightarrow> (bool, Camera) outcome" where
  "Camera_setFrameRate fdiv framerate cam =
     (if is_Number framerate = False then Returns False cam
      else case py_lt framerate (PyFloat (Fin 1)) of
        Inl e \<Rightarrow> Raises e cam
      | Inr True \<Rightarrow> Returns False cam
      | Inr False \<Rightarrow>
     (case py_lt (PyFloat (Fin 50)) framerate of
        Inl e \<Rightarrow> Raises e cam
      | Inr True \<Rightarrow> Returns False cam
      | Inr False \<Rightarrow>
     (case py_float framerate of
        Inl e \<Rightarrow> Raises e cam
      | Inr x \<Rightarrow>
        let framerate = PyFloat x;
            cam = cam\<lparr>features := (features cam)(''framerate'' \<mapsto> framerate)\<rparr>
        in
     (case Camera_adjustExposureTime fdiv framerate cam of
        Inl e \<Rightarrow> Raises e cam
      | Inr exposure \<Rightarrow>
        let cam = cam\<lparr>features := (features cam)(''exposuretime'' \<mapsto> exposure)\<rparr>;
            cam = Camera_createThread cam
        in
     (case thread cam of
        None \<Rightarrow> Raises AttributeError cam
      | Some t \<Rightarrow>
     (case dict_get (features cam) ''framerate'' of
        Inl e \<Rightarrow> Raises e cam
      | Inr v \<Rightarrow>
     (case CameraDataThread_setFrameRate fdiv v t of
        Inl e \<Rightarrow> Raises e cam
      | Inr t \<Rightarrow>
        let cam = cam\<lparr>thread := Some t\<rparr> in
     (case dict_get (features cam) ''exposuretime'' of
        Inl e \<Rightarrow> Raises e cam
      | Inr v \<Rightarrow>
        let cam = cam\<lparr>thread := Some (CameraDataThread_setExposureTime v t)\<rparr>
        in Returns True cam))))))))"

definition Camera_setExposureTime :: "pyval \<Rightarrow> Camera \<Rightarrow> (bool, Camera) outcome" where
  "Camera_setExposureTime exposuretime cam =
     (if is_Number exposuretime = False then Returns False cam
      else case py_lt exposuretime (PyFloat (Fin (1 / 10))) of
        Inl e \<Rightarrow> Raises e cam
      | Inr True \<Rightarrow> Returns False cam
      | Inr False \<Rightarrow>
     (case py_lt (PyFloat (Fin 30)) exposuretime of
        Inl e \<Rightarrow> Raises e cam
      | Inr True \<Rightarrow> Returns False cam
      | Inr False \<Rightarrow>
     (case py_float exposuretime of
        Inl e \<Rightarrow> Raises e cam
      | Inr x \<Rightarrow>
        let exposuretime = PyFloat x;
            cam = cam\<lparr>features := (features cam)(''exposuretime'' \<mapsto> exposuretime)\<rparr>;
            cam = Camera_createThread cam
        in
     (case thread cam of
        None \<Rightarrow> Raises AttributeError cam
      | Some t \<Rightarrow>
        let cam = cam\<lparr>thread := Some (CameraDataThread_setExposureTime exposuretime t)\<rparr>
        in Returns True cam))))"

definition Camera_setWidth :: "pyval \<Rightarrow> Camera \<Rightarrow> (bool, Camera) outcome" where
  "Camera_setWidth w cam =
     (if is_Number w = False then Returns False cam
      else case py_lt w (PyInt 100) of
        Inl e \<Rightarrow> Raises e cam
      | Inr True \<Rightarrow> Returns False cam
      | Inr False \<Rightarrow>
     (case py_lt (PyInt 1000) w of
        Inl e \<Rightarrow> Raises e cam
      | Inr True \<Rightarrow> Returns False cam
      | Inr False \<Rightarrow>
     (case py_int w of
        Inl e \<Rightarrow> Raises e cam
      | Inr i \<Rightarrow>
        let w = PyInt i;
            cam = cam\<lparr>features := (features cam)(''width'' \<mapsto> w)\<rparr>
        in
     (case thread cam of
        None \<Rightarrow> Raises AttributeError cam
      | Some t \<Rightarrow>
        let cam = cam\<lparr>thread := Some (CameraDataThread_setWidth w t)\<rparr>
        in Returns True cam))))"

definition Camera_setHeight :: "pyval \<Rightarrow> Camera \<Rightarrow> (bool, Camera) outcome" where
  "Camera_setHeight h cam =
     (if is_Number h = False then Returns False cam
      else case py_lt h (PyInt 100) of
        Inl e \<Rightarrow> Raises e cam
      | Inr True \<Rightarrow> Returns False cam
      | Inr False \<Rightarrow>
     (case py_lt (PyInt 1000) h of
        Inl e \<Rightarrow> Raises e cam
      | Inr True \<Rightarrow> Returns False cam
      | Inr False \<Rightarrow>
     (case py_int h of
        Inl e \<Rightarrow> Raises e cam
      | Inr i \<Rightarrow>
        let h = PyInt i;
            cam = cam\<lparr>features := (features cam)(''height'' \<mapsto> h)\<rparr>
        in
     (case thread cam of
        None \<Rightarrow> Raises AttributeError cam
      | Some t \<Rightarrow>
        let cam = cam\<lparr>thread := Some (CameraDataThread_setHeight h t)\<rparr>
        in Returns True cam))))"

text \<open>The body of the \<open>try\<close> in \<open>__start\<close>.\<close>

definition Camera_start_try ::
  "(pyfloat \<Rightarrow> pyfloat \<Rightarrow> pyfloat) \<Rightarrow> Camera \<Rightarrow> (bool, Camera) outcome" where
  "Camera_start_try fdiv cam =
     (let cam = cam\<lparr>features := (features cam)(''isstarted'' \<mapsto> PyBool True)\<rparr>;
          cam = Camera_createThread cam
      in
      case thread cam of
        None \<Rightarrow> Raises AttributeError cam
      | Some t \<Rightarrow>
     (case Camera_get ''framerate'' cam of
        Inl e \<Rightarrow> Raises e cam
      | Inr v \<Rightarrow>
     (case CameraDataThread_setFrameRate fdiv v t of
        Inl e \<Rightarrow> Raises e cam
      | Inr t \<Rightarrow>
        let cam = cam\<lparr>thread := Some t\<rparr> in
     (case Camera_get ''exposuretime'' cam of
        Inl e \<Rightarrow> Raises e cam
      | Inr v \<Rightarrow>
        let t = CameraDataThread_setExposureTime v t;
            cam = cam\<lparr>thread := Some t\<rparr>
        in
     (case Camera_get ''width'' cam of
        Inl e \<Rightarrow> Raises e cam
      | Inr v \<Rightarrow>
        let t = CameraDataThread_setWidth v t;
            cam = cam\<lparr>thread := Some t\<rparr>
        in
     (case Camera_get ''height'' cam of
        Inl e \<Rightarrow> Raises e cam
      | Inr v \<Rightarrow>
        let t = CameraDataThread_setHeight v t;
            cam = cam\<lparr>thread := Some t\<rparr>
        in
     (case RingBuffer_sync (buffer cam) of
        Raises e rb \<Rightarrow> Raises e (cam\<lparr>buffer := rb\<rparr>)
      | Blocks \<Rightarrow> Blocks
      | Returns u rb \<Rightarrow>
        let cam = cam\<lparr>buffer := rb\<rparr> in
     (case CameraDataThread_start t of
        Raises e t \<Rightarrow> Raises e (cam\<lparr>thread := Some t\<rparr>)
      | Blocks \<Rightarrow> Blocks
      | Returns u t \<Rightarrow> Returns True (cam\<lparr>thread := Some t\<rparr>)))))))))"

text \<open>The bare \<open>except\<close> turns every exception of the body into the result \<open>False\<close>.\<close>

definition Camera_start ::
  "(pyfloat \<Rightarrow> pyfloat \<Rightarrow> pyfloat) \<Rightarrow> Camera \<Rightarrow> (bool, Camera) outcome" where
  "Camera_start fdiv cam =
     (case Camera_start_try fdiv cam of
        Raises e cam \<Rightarrow> Returns False cam
      | Returns b cam \<Rightarrow> Returns b cam
      | Blocks \<Rightarrow> Blocks)"

definition Camera_stop_try :: "Camera \<Rightarrow> (bool, Camera) outcome" where
  "Camera_stop_try cam =
     (let cam = cam\<lparr>features := (features cam)(''isstarted'' \<mapsto> PyBool False)\<rparr> in
      case thread cam of
        None \<Rightarrow> Raises AttributeError cam
      | Some t \<Rightarrow>
     (case CameraDataThread_stop t of
        Raises e t \<Rightarrow> Raises e (cam\<lparr>thread := Some t\<rparr>)
      | Blocks \<Rightarrow> Blocks
      | Returns u t \<Rightarrow>
        let cam = cam\<lparr>thread := None\<rparr> in
        Returns True cam))"

definition Camera_stop :: "Camera \<Rightarrow> (bool, Camera) outcome" where
  "Camera_stop cam =
     (case Camera_stop_try cam of
        Raises e cam \<Rightarrow> Returns False cam
      | Returns b cam \<Rightarrow> Returns b cam
      | Blocks \<Rightarrow> Blocks)"

definition Camera_set ::
  "(pyfloat \<Rightarrow> pyfloat \<Rightarrow> pyfloat) \<Rightarrow> string \<Rightarrow> pyval \<Rightarrow> Camera \<Rightarrow> (bool, Camera) outcome" where
  "Camera_set fdiv feature_name v cam =
     (if feature_name = ''framerate'' then Camera_setFrameRate fdiv v cam
      else if feature_name = ''exposuretime'' then Camera_setExposureTime v cam
      else if feature_name = ''width'' then Camera_setWidth v cam
      else if feature_name = ''height'' then Camera_setHeight v cam
      else if feature_name = ''start'' then Camera_start fdiv cam
      else if feature_name = ''stop'' then Camera_stop cam
      else Returns False cam)"

text \<open>
  A concrete division for the places where a concrete input is evaluated: the exact
  quotient of two finite values.
\<close>

fun exact_div :: "pyfloat \<Rightarrow> pyfloat \<Rightarrow> pyfloat" where
  "exact_div (Fin a) (Fin b) = Fin (a / b)"
| "exact_div x y = NaN"

text \<open>The stored exposure time is a bool, an int or a float.\<close>

definition exposure_is_real :: "Camera \<Rightarrow> bool" where
  "exposure_is_real cam \<longleftrightarrow>
     (case features cam ''exposuretime'' of
        None \<Rightarrow> False
      | Some e \<Rightarrow> real_value e \<noteq> None)"


section \<open>RingBuffer: single calls on a state that satisfies the invariant\<close>

lemma mod_window:
  fixes x C :: int
  assumes "0 < C" "- C \<le> x" "x < 2 * C"
  shows "x mod C = (if x < 0 then x + C else if C \<le> x then x - C else x)"
proof -
  consider "x < 0" | "0 \<le> x \<and> x < C" | "C \<le> x" by linarith
  then show ?thesis
  proof cases
    case 1
    then have "(x + C) mod C = x + C" using assms by (intro mod_pos_pos_trivial) auto
    then show ?thesis using 1 by simp
  next
    case 2
    then show ?thesis by simp
  next
    case 3
    then have "(x - C) mod C = x - C" using assms by (intro mod_pos_pos_trivial) auto
    then show ?thesis using 3 assms by simp
  qed
qed

lemma rb_inv_init: "rb_inv C (RingBuffer_init C)"
  by (auto simp: rb_inv_def RingBuffer_init_def)

lemma rb_inv_counts: "rb_inv C rb \<Longrightarrow> read_count rb \<le> write_count rb"
proof -
  assume a: "rb_inv C rb"
  show ?thesis
  proof (cases "0 < C")
    case True
    then have "0 \<le> (write_index rb - read_index rb) mod C" by simp
    with a show ?thesis unfolding rb_inv_def by linarith
  next
    case False
    with a show ?thesis by (simp add: rb_inv_def)
  qed
qed

lemma push_returns:
  assumes "rb_inv C rb" "0 < C"
  shows "RingBuffer_push f rb =
           Returns () (rb\<lparr>frames := (frames rb)[nat (write_index rb) := Some f],
                          write_index := (write_index rb + 1) mod C,
                          write_count := write_count rb + 1\<rparr>)"
  using assms
  by (simp add: rb_inv_def RingBuffer_push_def py_setitem_def py_mod_def Let_def)

lemma push_raises:
  assumes "rb_inv C rb" "C \<le> 0"
  shows "RingBuffer_push f rb = Raises IndexError (rb\<lparr>lock := True\<rparr>)"
  using assms
  by (simp add: rb_inv_def RingBuffer_push_def py_setitem_def py_mod_def Let_def)

lemma pop_empty:
  assumes "\<not> lock rb" "read_count rb > write_count rb \<or> read_index rb = write_index rb"
  shows "RingBuffer_pop rb = Returns None rb"
  using assms by (simp add: RingBuffer_pop_def Let_def)

lemma pop_frame:
  assumes "rb_inv C rb" "read_index rb \<noteq> write_index rb"
  shows "RingBuffer_pop rb =
           Returns (frames rb ! nat (read_index rb))
                   (rb\<lparr>read_index := (read_index rb + 1) mod C,
                       read_count := read_count rb + 1\<rparr>)"
proof -
  from assms have C: "0 < C" by (auto simp: rb_inv_def split: if_splits)
  have le: "read_count rb \<le> write_count rb" by (rule rb_inv_counts [OF assms(1)])
  show ?thesis using assms C le
    by (simp add: rb_inv_def RingBuffer_pop_def py_getitem_def py_mod_def Let_def)
qed

lemma sync_returns:
  assumes "\<not> lock rb"
  shows "RingBuffer_sync rb =
           Returns () (rb\<lparr>read_index := write_index rb, read_count := 0, write_count := 0\<rparr>)"
  using assms by (simp add: RingBuffer_sync_def Let_def)

lemma locked_blocks:
  assumes "lock rb"
  shows "RingBuffer_push f rb = Blocks" "RingBuffer_pop rb = Blocks" "RingBuffer_sync rb = Blocks"
  using assms by (simp_all add: RingBuffer_push_def RingBuffer_pop_def RingBuffer_sync_def)

lemma rb_inv_push:
  assumes inv: "rb_inv C rb" and C: "0 < C"
  shows "rb_inv C (rb\<lparr>frames := (frames rb)[nat (write_index rb) := Some f],
                     write_index := (write_index rb + 1) mod C,
                     write_count := write_count rb + 1\<rparr>)"
proof -
  let ?ri = "read_index rb" and ?wi = "write_index rb"
  from inv C have b: "0 \<le> ?ri" "?ri < C" "0 \<le> ?wi" "?wi < C"
    and len: "length (frames rb) = nat C"
    and cnt: "(?wi - ?ri) mod C \<le> write_count rb - read_count rb"
    and slots: "\<And>j. 0 \<le> j \<Longrightarrow> j < C \<Longrightarrow> (j - ?ri) mod C < (?wi - ?ri) mod C \<Longrightarrow>
                   frames rb ! nat j \<noteq> None"
    by (auto simp: rb_inv_def)
  have w': "(?wi + 1) mod C = (if ?wi + 1 = C then 0 else ?wi + 1)"
    using b C by (simp add: mod_window)
  have d: "(?wi - ?ri) mod C = (if ?wi < ?ri then ?wi - ?ri + C else ?wi - ?ri)"
    using b C by (simp add: mod_window)
  have d': "((?wi + 1) mod C - ?ri) mod C =
            (if (?wi - ?ri) mod C + 1 = C then 0 else (?wi - ?ri) mod C + 1)"
    using b C by (auto simp: w' d mod_window)
  have cnt': "((?wi + 1) mod C - ?ri) mod C \<le> write_count rb + 1 - read_count rb"
    using cnt C unfolding d' by (auto split: if_splits)
  have slots': "(frames rb)[nat ?wi := Some f] ! nat j \<noteq> None"
    if j: "0 \<le> j" "j < C" "(j - ?ri) mod C < ((?wi + 1) mod C - ?ri) mod C" for j
  proof (cases "j = ?wi")
    case True
    then show ?thesis using b len by simp
  next
    case False
    have jd: "(j - ?ri) mod C = (if j < ?ri then j - ?ri + C else j - ?ri)"
      using b j C by (simp add: mod_window)
    have "0 \<le> (j - ?ri) mod C" using C by simp
    with j(3) have "(j - ?ri) mod C < (?wi - ?ri) mod C + 1"
      unfolding d' by (auto split: if_splits)
    moreover have "(j - ?ri) mod C \<noteq> (?wi - ?ri) mod C"
      using False b j unfolding jd d by (auto split: if_splits)
    ultimately have "(j - ?ri) mod C < (?wi - ?ri) mod C" by linarith
    then have "frames rb ! nat j \<noteq> None" using slots j by blast
    moreover have "nat ?wi \<noteq> nat j" using False b j by simp
    ultimately show ?thesis by simp
  qed
  show ?thesis
    using inv C cnt' slots' w' b
    by (simp add: rb_inv_def)
qed

lemma rb_inv_pop:
  assumes inv: "rb_inv C rb" and ne: "read_index rb \<noteq> write_index rb"
  shows "rb_inv C (rb\<lparr>read_index := (read_index rb + 1) mod C,
                     read_count := read_count rb + 1\<rparr>)"
proof -
  let ?ri = "read_index rb" and ?wi = "write_index rb"
  from assms have C: "0 < C" by (auto simp: rb_inv_def split: if_splits)
  from inv C have b: "0 \<le> ?ri" "?ri < C" "0 \<le> ?wi" "?wi < C"
    and cnt: "(?wi - ?ri) mod C \<le> write_count rb - read_count rb"
    and rc: "0 \<le> read_count rb"
    and slots: "\<And>j. 0 \<le> j \<Longrightarrow> j < C \<Longrightarrow> (j - ?ri) mod C < (?wi - ?ri) mod C \<Longrightarrow>
                   frames rb ! nat j \<noteq> None"
    by (auto simp: rb_inv_def)
  have r': "(?ri + 1) mod C = (if ?ri + 1 = C then 0 else ?ri + 1)"
    using b C by (simp add: mod_window)
  have d: "(?wi - ?ri) mod C = (if ?wi < ?ri then ?wi - ?ri + C else ?wi - ?ri)"
    using b C by (simp add: mod_window)
  have d': "(?wi - (?ri + 1) mod C) mod C = (?wi - ?ri) mod C - 1"
    using b C ne by (auto simp: r' d mod_window)
  have slots': "frames rb ! nat j \<noteq> None"
    if j: "0 \<le> j" "j < C" "(j - (?ri + 1) mod C) mod C < (?wi - (?ri + 1) mod C) mod C" for j
  proof -
    have jd: "(j - ?ri) mod C = (if j < ?ri then j - ?ri + C else j - ?ri)"
      using b j C by (simp add: mod_window)
    have jd': "(j - (?ri + 1) mod C) mod C =
               (if j = ?ri then C - 1 else (j - ?ri) mod C - 1)"
      using b j C by (auto simp: r' jd mod_window)
    have "(?wi - ?ri) mod C < C" using C by simp
    with j(3) have "(j - ?ri) mod C < (?wi - ?ri) mod C"
      unfolding d' jd' by (auto split: if_splits)
    then show ?thesis using slots j by blast
  qed
  show ?thesis
    using inv C cnt rc slots' r' b d'
    by (simp add: rb_inv_def)
qed

lemma rb_inv_sync:
  assumes inv: "rb_inv C rb"
  shows "rb_inv C (rb\<lparr>read_index := write_index rb, read_count := 0, write_count := 0\<rparr>)"
proof -
  have "\<not> (j - write_index rb) mod C < 0" if "0 \<le> j" "j < C" for j
  proof -
    from that have "0 < C" by linarith
    then have "0 \<le> (j - write_index rb) mod C" by simp
    then show ?thesis by linarith
  qed
  with inv show ?thesis by (auto simp: rb_inv_def)
qed

lemma reachable_inv: "reachable C rb \<Longrightarrow> rb_inv C rb"
proof (induction rule: reachable.induct)
  case reach_init
  show ?case by (rule rb_inv_init)
next
  case (reach_push rb f u rb')
  show ?case
  proof (cases "0 < C")
    case True
    with reach_push show ?thesis
      using push_returns [of C rb f] rb_inv_push [of C rb f] by simp
  next
    case False
    with reach_push show ?thesis
      using push_raises [of C rb f] by simp
  qed
next
  case (reach_pop rb r rb')
  show ?case
  proof (cases "read_index rb = write_index rb")
    case True
    with reach_pop show ?thesis
      using pop_empty [of rb] by (simp add: rb_inv_def)
  next
    case False
    with reach_pop show ?thesis
      using pop_frame [of C rb] rb_inv_pop [of C rb] by simp
  qed
next
  case (reach_sync rb u rb')
  then show ?case
    using sync_returns [of rb] rb_inv_sync [of C rb] by (simp add: rb_inv_def)
qed

subsection \<open>A reachable state with one unread frame\<close>

lemma push_a_init2:
  "RingBuffer_push frame_a (RingBuffer_init 2) =
     Returns () \<lparr>size_rb = 2, frames = [Some frame_a, None], lock = False,
                 write_index = 1, read_index = 0, write_count = 1, read_count = 0\<rparr>"
  by (simp add: RingBuffer_push_def RingBuffer_init_def py_setitem_def py_mod_def Let_def
        numeral_2_eq_2)

lemma reachable_a_init2:
  "reachable 2 \<lparr>size_rb = 2, frames = [Some frame_a, None], lock = False,
                 write_index = 1, read_index = 0, write_count = 1, read_count = 0\<rparr>"
  by (rule reach_push [OF reach_init push_a_init2])

section \<open>RingBuffer: the counters, \<open>sync\<close> and \<open>pop\<close>\<close>

text \<open>
  C6. In every state of a buffer reached from a freshly created one by completed
  \<open>push\<close>, \<open>pop\<close> and \<open>sync\<close> calls, \<open>read_count \<le> write_count\<close>.
\<close>

theorem read_count_le_write_count:
  "reachable C rb \<Longrightarrow> read_count rb \<le> write_count rb"
  by (rule rb_inv_counts [OF reachable_inv])

text \<open>The state after one push into a buffer of two slots.\<close>

theorem read_count_le_write_count_witness:
  "reachable 2 \<lparr>size_rb = 2, frames = [Some frame_a, None], lock = False,
                 write_index = 1, read_index = 0, write_count = 1, read_count = 0\<rparr>
   \<and> read_count \<lparr>size_rb = 2, frames = [Some frame_a, None], lock = False,
                 write_index = 1, read_index = 0, write_count = 1, read_count = 0\<rparr>
     \<le> write_count \<lparr>size_rb = 2, frames = [Some frame_a, None], lock = False,
                 write_index = 1, read_index = 0, write_count = 1, read_count = 0\<rparr>"
  using read_count_le_write_count [OF reachable_a_init2] reachable_a_init2 by simp

text \<open>
  C7. In every reachable state, \<open>sync\<close> returns and the \<open>pop\<close> that follows it
  returns \<open>None\<close> ("empty"), whatever was unread before.
\<close>

theorem sync_then_pop_empty:
  assumes "reachable C rb"
  shows "\<exists>rb'. RingBuffer_sync rb = Returns () rb' \<and> RingBuffer_pop rb' = Returns None rb'"
proof -
  from assms have "\<not> lock rb" using reachable_inv [of C rb] by (simp add: rb_inv_def)
  then show ?thesis
    by (simp add: sync_returns pop_empty)
qed

text \<open>One frame is unread before the \<open>sync\<close>.\<close>

theorem sync_then_pop_empty_witness:
  "reachable 2 \<lparr>size_rb = 2, frames = [Some frame_a, None], lock = False,
                 write_index = 1, read_index = 0, write_count = 1, read_count = 0\<rparr>
   \<and> RingBuffer_sync \<lparr>size_rb = 2, frames = [Some frame_a, None], lock = False,
                 write_index = 1, read_index = 0, write_count = 1, read_count = 0\<rparr>
     = Returns () \<lparr>size_rb = 2, frames = [Some frame_a, None], lock = False,
                 write_index = 1, read_index = 1, write_count = 0, read_count = 0\<rparr>
   \<and> RingBuffer_pop \<lparr>size_rb = 2, frames = [Some frame_a, None], lock = False,
                 write_index = 1, read_index = 1, write_count = 0, read_count = 0\<rparr>
     = Returns None \<lparr>size_rb = 2, frames = [Some frame_a, None], lock = False,
                 write_index = 1, read_index = 1, write_count = 0, read_count = 0\<rparr>"
  using sync_then_pop_empty [OF reachable_a_init2] reachable_a_init2
  by (simp add: RingBuffer_sync_def Let_def)

text \<open>
  C1 as stated fails: after one push into a fresh buffer of one slot the indices
  coincide, \<open>write_count = 1\<close> exceeds \<open>read_count = 0\<close>, and \<open>pop\<close> returns
  \<open>None\<close>, although neither \<open>read_count > write_count\<close> nor
  \<open>read_count = write_count\<close> holds.
\<close>

theorem pop_full_counterexample:
  "reachable 1 \<lparr>size_rb = 1, frames = [Some frame_a], lock = False,
                 write_index = 0, read_index = 0, write_count = 1, read_count = 0\<rparr>
   \<and> RingBuffer_push frame_a (RingBuffer_init 1)
     = Returns () \<lparr>size_rb = 1, frames = [Some frame_a], lock = False,
                 write_index = 0, read_index = 0, write_count = 1, read_count = 0\<rparr>
   \<and> \<not> (read_count \<lparr>size_rb = 1, frames = [Some frame_a], lock = False,
                 write_index = 0, read_index = 0, write_count = 1, read_count = 0\<rparr>
          > write_count \<lparr>size_rb = 1, frames = [Some frame_a], lock = False,
                 write_index = 0, read_index = 0, write_count = 1, read_count = 0\<rparr>)
   \<and> \<not> (read_count \<lparr>size_rb = 1, frames = [Some frame_a], lock = False,
                 write_index = 0, read_index = 0, write_count = 1, read_count = 0\<rparr>
          = write_count \<lparr>size_rb = 1, frames = [Some frame_a], lock = False,
                 write_index = 0, read_index = 0, write_count = 1, read_count = 0\<rparr>)
   \<and> RingBuffer_pop \<lparr>size_rb = 1, frames = [Some frame_a], lock = False,
                 write_index = 0, read_index = 0, write_count = 1, read_count = 0\<rparr>
     = Returns None \<lparr>size_rb = 1, frames = [Some frame_a], lock = False,
                 write_index = 0, read_index = 0, write_count = 1, read_count = 0\<rparr>"
proof -
  have p: "RingBuffer_push frame_a (RingBuffer_init 1)
     = Returns () \<lparr>size_rb = 1, frames = [Some frame_a], lock = False,
                 write_index = 0, read_index = 0, write_count = 1, read_count = 0\<rparr>"
    by (simp add: RingBuffer_push_def RingBuffer_init_def py_setitem_def py_mod_def Let_def)
  have r: "reachable 1 \<lparr>size_rb = 1, frames = [Some frame_a], lock = False,
                 write_index = 0, read_index = 0, write_count = 1, read_count = 0\<rparr>"
    by (rule reach_push [OF reach_init p])
  show ?thesis using p r by (simp add: RingBuffer_pop_def Let_def)
qed

text \<open>
  C1, amended. In every reachable state \<open>pop\<close> returns \<open>None\<close> exactly when
  \<open>read_count > write_count\<close> or \<open>read_index = write_index\<close>, whatever the counts are;
  in every other reachable state the slot at \<open>read_index\<close> holds a frame, \<open>pop\<close>
  returns it, advances \<open>read_index\<close> by one modulo the size and increments
  \<open>read_count\<close>.
\<close>

theorem pop_cases:
  assumes "reachable C rb"
  shows "(read_count rb > write_count rb \<or> read_index rb = write_index rb \<longrightarrow>
            RingBuffer_pop rb = Returns None rb) \<and>
         (\<not> (read_count rb > write_count rb \<or> read_index rb = write_index rb) \<longrightarrow>
            (\<exists>f. py_getitem (frames rb) (read_index rb) = Inr (Some f) \<and>
                 RingBuffer_pop rb =
                   Returns (Some f)
                     (rb\<lparr>read_index := (read_index rb + 1) mod size_rb rb,
                         read_count := read_count rb + 1\<rparr>)))"
proof -
  from assms have inv: "rb_inv C rb" by (rule reachable_inv)
  then have nl: "\<not> lock rb" and sz: "size_rb rb = C" by (simp_all add: rb_inv_def)
  have empty: "RingBuffer_pop rb = Returns None rb"
    if "read_count rb > write_count rb \<or> read_index rb = write_index rb"
    using nl that by (rule pop_empty)
  have full: "\<exists>f. py_getitem (frames rb) (read_index rb) = Inr (Some f) \<and>
                 RingBuffer_pop rb =
                   Returns (Some f)
                     (rb\<lparr>read_index := (read_index rb + 1) mod size_rb rb,
                         read_count := read_count rb + 1\<rparr>)"
    if ne: "read_index rb \<noteq> write_index rb"
  proof -
    from inv ne have C: "0 < C" by (auto simp: rb_inv_def split: if_splits)
    from inv C have b: "0 \<le> read_index rb" "read_index rb < C"
      "0 \<le> write_index rb" "write_index rb < C" "length (frames rb) = nat C"
      by (auto simp: rb_inv_def)
    have "(write_index rb - read_index rb) mod C \<noteq> 0"
      using b C ne by (auto simp: mod_window)
    moreover have "0 \<le> (write_index rb - read_index rb) mod C" using C by simp
    ultimately have "(read_index rb - read_index rb) mod C < (write_index rb - read_index rb) mod C"
      by simp
    with inv b have "frames rb ! nat (read_index rb) \<noteq> None"
      unfolding rb_inv_def by blast
    then obtain f where f: "frames rb ! nat (read_index rb) = Some f" by auto
    have "py_getitem (frames rb) (read_index rb) = Inr (Some f)"
      using b f by (simp add: py_getitem_def Let_def)
    with pop_frame [OF inv ne] f sz show ?thesis by simp
  qed
  show ?thesis using empty full by blast
qed

text \<open>A state with an unread frame, and the fresh buffer.\<close>

theorem pop_cases_witness:
  "reachable 2 \<lparr>size_rb = 2, frames = [Some frame_a, None], lock = False,
                 write_index = 1, read_index = 0, write_count = 1, read_count = 0\<rparr>
   \<and> RingBuffer_pop \<lparr>size_rb = 2, frames = [Some frame_a, None], lock = False,
                 write_index = 1, read_index = 0, write_count = 1, read_count = 0\<rparr>
     = Returns (Some frame_a) \<lparr>size_rb = 2, frames = [Some frame_a, None], lock = False,
                 write_index = 1, read_index = 1, write_count = 1, read_count = 1\<rparr>
   \<and> reachable 2 (RingBuffer_init 2)
   \<and> RingBuffer_pop (RingBuffer_init 2) = Returns None (RingBuffer_init 2)"
  using pop_cases [OF reachable_a_init2] pop_cases [OF reach_init, of 2] reachable_a_init2
    reach_init [of 2]
  by (simp add: RingBuffer_init_def py_getitem_def)

section \<open>RingBuffer: pushes into a fresh buffer followed by pops\<close>

lemma pushes_append:
  "pushes (fs @ gs) rb =
     (case pushes fs rb of
        Returns u rb' \<Rightarrow> pushes gs rb'
      | Raises e rb' \<Rightarrow> Raises e rb'
      | Blocks \<Rightarrow> Blocks)"
  by (induction fs arbitrary: rb) (auto split: outcome.splits)

lemma pushes_snoc:
  "pushes fs rb = Returns () rb1 \<Longrightarrow> RingBuffer_push f rb1 = Returns () rb2 \<Longrightarrow>
   pushes (fs @ [f]) rb = Returns () rb2"
  by (simp add: pushes_append)

lemma succ_mod:
  fixes x C :: int
  assumes "0 \<le> x" "x < C"
  shows "(x + 1) mod C = (if x + 1 = C then 0 else x + 1)"
  using assms by (simp add: mod_window)

text \<open>The state after any number of pushes into a fresh buffer.\<close>

lemma pushes_init:
  assumes C: "0 < C"
  shows "\<exists>rb. pushes fs (RingBuffer_init C) = Returns () rb \<and> rb_inv C rb \<and>
           read_index rb = 0 \<and> read_count rb = 0 \<and>
           write_index rb = int (length fs) mod C \<and>
           (\<forall>j. 0 \<le> j \<and> j < int (length fs) mod C \<longrightarrow>
                frames rb ! nat j =
                  Some (fs ! nat (int (length fs) - int (length fs) mod C + j)))"
proof (induction fs rule: rev_induct)
  case Nil
  show ?case by (auto simp: rb_inv_init) (simp_all add: RingBuffer_init_def)
next
  case (snoc f fs)
  let ?n = "int (length fs)"
  let ?m = "?n mod C"
  from snoc obtain rb where
    run: "pushes fs (RingBuffer_init C) = Returns () rb" and inv: "rb_inv C rb" and
    ri: "read_index rb = 0" and rc: "read_count rb = 0" and wi: "write_index rb = ?m" and
    slots: "\<And>j. 0 \<le> j \<Longrightarrow> j < ?m \<Longrightarrow> frames rb ! nat j = Some (fs ! nat (?n - ?m + j))"
    by blast
  let ?rb' = "rb\<lparr>frames := (frames rb)[nat (write_index rb) := Some f],
                  write_index := (write_index rb + 1) mod C,
                  write_count := write_count rb + 1\<rparr>"
  have step: "RingBuffer_push f rb = Returns () ?rb'" by (rule push_returns [OF inv C])
  have run': "pushes (fs @ [f]) (RingBuffer_init C) = Returns () ?rb'"
    by (rule pushes_snoc [OF run step])
  have inv': "rb_inv C ?rb'" by (rule rb_inv_push [OF inv C])
  have m: "0 \<le> ?m" "?m < C" using C by simp_all
  have len: "length (frames rb) = nat C" using inv by (simp add: rb_inv_def)
  have wi': "(?m + 1) mod C = (?n + 1) mod C" by (simp add: mod_add_left_eq)
  have aux: "(?m + 1) mod C = (if ?m + 1 = C then 0 else ?m + 1)"
    by (rule succ_mod [OF m])
  have m': "(?n + 1) mod C = (if ?m + 1 = C then 0 else ?m + 1)"
    by (rule trans [OF wi' [symmetric] aux])
  have mle: "?m \<le> ?n" using C by (simp add: zmod_le_nonneg_dividend)
  have slots': "(frames rb)[nat ?m := Some f] ! nat j =
                  Some ((fs @ [f]) ! nat (?n + 1 - (?n + 1) mod C + j))"
    if j: "0 \<le> j" "j < (?n + 1) mod C" for j
  proof -
    from j m' have ne: "?m + 1 \<noteq> C" and jm: "j \<le> ?m" by (auto split: if_splits)
    then have e: "(?n + 1) mod C = ?m + 1" using m' by simp
    show ?thesis
    proof (cases "j = ?m")
      case True
      have "nat (?n + 1 - (?m + 1) + ?m) = length fs" by simp
      then show ?thesis using True m len e by simp
    next
      case False
      with jm have lt: "j < ?m" by simp
      have "nat (?n - ?m + j) < length fs" using lt mle j by linarith
      then have "(fs @ [f]) ! nat (?n - ?m + j) = fs ! nat (?n - ?m + j)"
        by (simp add: nth_append)
      moreover have "nat ?m \<noteq> nat j" using False j m by simp
      ultimately show ?thesis using slots [OF j(1) lt] e by simp
    qed
  qed
  have n': "int (length (fs @ [f])) = ?n + 1" by simp
  show ?case
    unfolding n'
    using run' inv' ri rc wi wi' slots'
    by (intro exI [of _ ?rb']) simp
qed

lemma take_pad: "take k (xs @ replicate (Suc k) a) = take k (xs @ replicate k a)"
  by (simp only: take_append take_replicate) (simp add: min_def)

lemma pops_pending:
  assumes "rb_inv C rb" "read_index rb \<le> write_index rb"
  shows "\<exists>rb'. pops k rb = Returns (take k (pending rb @ replicate k None)) rb'"
  using assms
proof (induction k arbitrary: rb)
  case 0
  show ?case by simp
next
  case (Suc k)
  show ?case
  proof (cases "read_index rb = write_index rb")
    case True
    from Suc.prems have nl: "\<not> lock rb" by (simp add: rb_inv_def)
    have p: "RingBuffer_pop rb = Returns None rb" using nl True by (simp add: pop_empty)
    have e: "pending rb = []" using True by (simp add: pending_def)
    from Suc.IH [OF Suc.prems] obtain rb' where
      "pops k rb = Returns (take k (pending rb @ replicate k None)) rb'" by blast
    then have "pops (Suc k) rb = Returns (None # replicate k None) rb'"
      using p e by simp
    then show ?thesis using e by simp
  next
    case False
    let ?rb2 = "rb\<lparr>read_index := (read_index rb + 1) mod C, read_count := read_count rb + 1\<rparr>"
    from Suc.prems False have C: "0 < C" by (auto simp: rb_inv_def split: if_splits)
    from Suc.prems C have b: "0 \<le> read_index rb" "write_index rb < C"
      by (auto simp: rb_inv_def)
    from False Suc.prems(2) have lt: "read_index rb < write_index rb" by simp
    have r': "(read_index rb + 1) mod C = read_index rb + 1"
      using b lt C by (simp add: mod_window)
    have p: "RingBuffer_pop rb = Returns (frames rb ! nat (read_index rb)) ?rb2"
      by (rule pop_frame [OF Suc.prems(1) False])
    have inv2: "rb_inv C ?rb2" by (rule rb_inv_pop [OF Suc.prems(1) False])
    have le2: "read_index ?rb2 \<le> write_index ?rb2" using lt r' by simp
    have "[nat (read_index rb) ..< nat (write_index rb)] =
            nat (read_index rb) # [nat (read_index rb + 1) ..< nat (write_index rb)]"
      using lt b by (simp add: upt_conv_Cons nat_add_distrib)
    then have pe: "pending rb = frames rb ! nat (read_index rb) # pending ?rb2"
      using r' by (simp add: pending_def)
    from Suc.IH [OF inv2 le2] obtain rb' where
      "pops k ?rb2 = Returns (take k (pending ?rb2 @ replicate k None)) rb'" by blast
    then have "pops (Suc k) rb =
        Returns (frames rb ! nat (read_index rb) # take k (pending ?rb2 @ replicate k None)) rb'"
      using p by simp
    moreover have "take (Suc k) (pending rb @ replicate (Suc k) None) =
        frames rb ! nat (read_index rb) # take k (pending ?rb2 @ replicate k None)"
      by (simp only: pe append_Cons take_Suc_Cons take_pad)
    ultimately show ?thesis by simp
  qed
qed

lemma map_nth_drop:
  "a + m = length xs \<Longrightarrow> map (\<lambda>j. Some (xs ! (a + j))) [0..<m] = map Some (drop a xs)"
  by (rule nth_equalityI) auto

text \<open>Pops after any number of pushes into a fresh buffer.\<close>

lemma pops_after_pushes:
  assumes C: "0 < C"
  shows "\<exists>rb rb'. pushes fs (RingBuffer_init C) = Returns () rb \<and>
           pops k rb =
             Returns (take k (map Some (drop (length fs - nat (int (length fs) mod C)) fs)
                              @ replicate k None)) rb'"
proof -
  let ?n = "int (length fs)"
  let ?m = "?n mod C"
  from pushes_init [OF C, of fs] obtain rb where
    run: "pushes fs (RingBuffer_init C) = Returns () rb" and inv: "rb_inv C rb" and
    ri: "read_index rb = 0" and wi: "write_index rb = ?m" and
    slots: "\<And>j. 0 \<le> j \<Longrightarrow> j < ?m \<Longrightarrow> frames rb ! nat j = Some (fs ! nat (?n - ?m + j))"
    by blast
  have m: "0 \<le> ?m" "?m \<le> ?n" using C by (simp_all add: zmod_le_nonneg_dividend)
  have "pending rb = map (\<lambda>j. Some (fs ! ((length fs - nat ?m) + j))) [0..<nat ?m]"
    unfolding pending_def ri wi
  proof (rule map_cong [OF _ ], simp)
    fix j assume "j \<in> set [0..<nat ?m]"
    then have j: "0 \<le> int j" "int j < ?m" by auto
    have "nat (?n - ?m + int j) = length fs - nat ?m + j" using m by linarith
    with slots [OF j] show "frames rb ! j = Some (fs ! ((length fs - nat ?m) + j))" by simp
  qed
  also have "\<dots> = map Some (drop (length fs - nat ?m) fs)"
    using m by (intro map_nth_drop) linarith
  finally have pe: "pending rb = map Some (drop (length fs - nat ?m) fs)" .
  from pops_pending [OF inv, of k] ri wi m obtain rb' where
    "pops k rb = Returns (take k (pending rb @ replicate k None)) rb'" by auto
  with run pe show ?thesis by auto
qed

text \<open>
  C4 as stated fails at the boundary \<open>n = C\<close>: after one push into a fresh buffer
  of one slot the first \<open>pop\<close> returns \<open>None\<close>, not the pushed frame.
\<close>

theorem fifo_at_capacity_counterexample:
  "int (length [frame_a]) \<le> 1
   \<and> pushes [frame_a] (RingBuffer_init 1)
     = Returns () \<lparr>size_rb = 1, frames = [Some frame_a], lock = False,
                 write_index = 0, read_index = 0, write_count = 1, read_count = 0\<rparr>
   \<and> pops (length [frame_a]) \<lparr>size_rb = 1, frames = [Some frame_a], lock = False,
                 write_index = 0, read_index = 0, write_count = 1, read_count = 0\<rparr>
     = Returns [None] \<lparr>size_rb = 1, frames = [Some frame_a], lock = False,
                 write_index = 0, read_index = 0, write_count = 1, read_count = 0\<rparr>"
  by (simp add: RingBuffer_push_def RingBuffer_pop_def RingBuffer_init_def py_setitem_def
        py_mod_def Let_def)

text \<open>
  C4, amended. For every capacity \<open>C\<close> and every number \<open>n < C\<close> of pushes into a
  freshly created buffer, all pushes return and the first \<open>n\<close> calls of \<open>pop\<close>
  return exactly the \<open>n\<close> pushed frames in the order they were pushed.
\<close>

theorem fifo_below_capacity:
  assumes "int (length fs) < C"
  shows "\<exists>rb rb'. pushes fs (RingBuffer_init C) = Returns () rb \<and>
           pops (length fs) rb = Returns (map Some fs) rb'"
proof -
  from assms have C: "0 < C" by linarith
  from assms have "int (length fs) mod C = int (length fs)" by simp
  then have "length fs - nat (int (length fs) mod C) = 0" by simp
  with pops_after_pushes [OF C, of fs "length fs"] show ?thesis by simp
qed

text \<open>Two pushes into a buffer of three slots.\<close>

theorem fifo_below_capacity_witness:
  "int (length [frame_a, frame_b]) < 3
   \<and> (\<exists>rb rb'. pushes [frame_a, frame_b] (RingBuffer_init 3) = Returns () rb \<and>
           pops (length [frame_a, frame_b]) rb = Returns [Some frame_a, Some frame_b] rb')"
  using fifo_below_capacity [of "[frame_a, frame_b]" 3] by simp

text \<open>
  C5 as stated fails: after three pushes into a fresh buffer of two slots the pops return
  only the last frame and then \<open>None\<close>, not the two most recent frames.
\<close>

theorem overwrite_counterexample:
  "2 < int (length [frame_a, frame_b, frame_c])
   \<and> pushes [frame_a, frame_b, frame_c] (RingBuffer_init 2)
     = Returns () \<lparr>size_rb = 2, frames = [Some frame_c, Some frame_b], lock = False,
                 write_index = 1, read_index = 0, write_count = 3, read_count = 0\<rparr>
   \<and> pops 2 \<lparr>size_rb = 2, frames = [Some frame_c, Some frame_b], lock = False,
                 write_index = 1, read_index = 0, write_count = 3, read_count = 0\<rparr>
     = Returns [Some frame_c, None]
         \<lparr>size_rb = 2, frames = [Some frame_c, Some frame_b], lock = False,
                 write_index = 1, read_index = 1, write_count = 3, read_count = 1\<rparr>"
  by (simp add: RingBuffer_push_def RingBuffer_pop_def RingBuffer_init_def py_setitem_def
        py_getitem_def py_mod_def Let_def numeral_2_eq_2)

text \<open>
  C5, amended. For every capacity \<open>C > 0\<close> and every number \<open>n > C\<close> of pushes into
  a freshly created buffer before any pop, the following pops return exactly the most
  recent \<open>n mod C\<close> pushed frames, in push order, and \<open>None\<close> from then on; the
  earliest \<open>n - n mod C\<close> frames are not returned.
\<close>

theorem pops_after_overwrite:
  assumes "0 < C" "C < int (length fs)"
  shows "\<exists>rb rb'. pushes fs (RingBuffer_init C) = Returns () rb \<and>
           pops k rb =
             Returns (take k (map Some (drop (length fs - nat (int (length fs) mod C)) fs)
                              @ replicate k None)) rb'"
  by (rule pops_after_pushes [OF assms(1)])

text \<open>Three pushes into a buffer of two slots, then three pops.\<close>

theorem pops_after_overwrite_witness:
  "(0::int) < 2 \<and> 2 < int (length [frame_a, frame_b, frame_c])
   \<and> (\<exists>rb rb'. pushes [frame_a, frame_b, frame_c] (RingBuffer_init 2) = Returns () rb \<and>
           pops 3 rb = Returns [Some frame_c, None, None] rb')"
proof -
  have e: "take 3 (map Some (drop (length [frame_a, frame_b, frame_c]
                - nat (int (length [frame_a, frame_b, frame_c]) mod 2))
              [frame_a, frame_b, frame_c]) @ replicate 3 None)
           = [Some frame_c, None, None]"
    by (simp add: numeral_3_eq_3)
  show ?thesis
    using pops_after_overwrite [of 2 "[frame_a, frame_b, frame_c]" 3]
    unfolding e by simp
qed

section \<open>Camera: the stored exposure time stays a number\<close>

lemma exposure_is_real_init: "exposure_is_real Camera_init"
  by (simp add: exposure_is_real_def Camera_init_def)

lemma py_min_real:
  "py_min a b = Inr c \<Longrightarrow> real_value c \<noteq> None"
  by (auto simp: py_min_def py_lt_def split: option.splits sum.splits if_splits)

lemma setFrameRate_keeps:
  assumes "exposure_is_real cam"
    and "Camera_setFrameRate fdiv v cam = Returns b cam' \<or>
         Camera_setFrameRate fdiv v cam = Raises err cam'"
  shows "exposure_is_real cam'"
  using assms
  by (auto simp: Camera_setFrameRate_def exposure_is_real_def Camera_createThread_def Let_def
      Camera_adjustExposureTime_def
      dest!: py_min_real
      split: if_splits sum.splits bool.splits option.splits)

lemma setExposureTime_keeps:
  assumes "exposure_is_real cam"
    and "Camera_setExposureTime v cam = Returns b cam' \<or>
         Camera_setExposureTime v cam = Raises err cam'"
  shows "exposure_is_real cam'"
  using assms
  by (auto simp: Camera_setExposureTime_def exposure_is_real_def Camera_createThread_def Let_def
      split: if_splits sum.splits bool.splits option.splits)

lemma setWidth_keeps:
  assumes "exposure_is_real cam"
    and "Camera_setWidth v cam = Returns b cam' \<or> Camera_setWidth v cam = Raises err cam'"
  shows "exposure_is_real cam'"
  using assms
  by (auto simp: Camera_setWidth_def exposure_is_real_def Let_def
      split: if_splits sum.splits bool.splits option.splits)

lemma setHeight_keeps:
  assumes "exposure_is_real cam"
    and "Camera_setHeight v cam = Returns b cam' \<or> Camera_setHeight v cam = Raises err cam'"
  shows "exposure_is_real cam'"
  using assms
  by (auto simp: Camera_setHeight_def exposure_is_real_def Let_def
      split: if_splits sum.splits bool.splits option.splits)

lemma start_try_keeps:
  assumes "exposure_is_real cam"
    and "Camera_start_try fdiv cam = Returns b cam' \<or> Camera_start_try fdiv cam = Raises err cam'"
  shows "exposure_is_real cam'"
  using assms
  by (auto simp: Camera_start_try_def exposure_is_real_def Camera_createThread_def Let_def
      split: if_splits sum.splits outcome.splits option.splits)

lemma start_keeps:
  assumes "exposure_is_real cam"
    and "Camera_start fdiv cam = Returns b cam' \<or> Camera_start fdiv cam = Raises err cam'"
  shows "exposure_is_real cam'"
  using assms start_try_keeps [of cam fdiv]
  by (auto simp: Camera_start_def split: outcome.splits)

lemma stop_try_keeps:
  assumes "exposure_is_real cam"
    and "Camera_stop_try cam = Returns b cam' \<or> Camera_stop_try cam = Raises err cam'"
  shows "exposure_is_real cam'"
  using assms
  by (auto simp: Camera_stop_try_def exposure_is_real_def Let_def
      split: if_splits sum.splits outcome.splits option.splits)

lemma stop_keeps:
  assumes "exposure_is_real cam"
    and "Camera_stop cam = Returns b cam' \<or> Camera_stop cam = Raises err cam'"
  shows "exposure_is_real cam'"
  using assms stop_try_keeps [of cam]
  by (auto simp: Camera_stop_def split: outcome.splits)

lemma set_keeps:
  assumes "exposure_is_real cam"
    and "Camera_set fdiv n v cam = Returns b cam' \<or> Camera_set fdiv n v cam = Raises err cam'"
  shows "exposure_is_real cam'"
  using assms setFrameRate_keeps [of cam fdiv v b cam' err] setExposureTime_keeps [of cam v b cam' err]
    setWidth_keeps [of cam v b cam' err] setHeight_keeps [of cam v b cam' err]
    start_keeps [of cam fdiv b cam' err] stop_keeps [of cam b cam' err]
  by (auto simp: Camera_set_def split: if_splits)

section \<open>Camera: validation, lazy creation of the producer, start\<close>

lemma set_framerate_eq: "Camera_set fdiv ''framerate'' v cam = Camera_setFrameRate fdiv v cam"
  by (simp add: Camera_set_def)

lemma setFrameRate_rejects:
  assumes "\<not> is_Number v \<or> py_lt v (PyFloat (Fin 1)) = Inr True
           \<or> py_lt (PyFloat (Fin 50)) v = Inr True"
  shows "Camera_setFrameRate fdiv v cam = Returns False cam"
proof (cases "is_Number v")
  case False
  then show ?thesis by (simp add: Camera_setFrameRate_def)
next
  case True
  with assms consider "py_lt v (PyFloat (Fin 1)) = Inr True"
    | "py_lt v (PyFloat (Fin 1)) \<noteq> Inr True" "py_lt (PyFloat (Fin 50)) v = Inr True" by blast
  then show ?thesis
  proof cases
    case 1
    then show ?thesis using True by (simp add: Camera_setFrameRate_def)
  next
    case 2
    from 2(2) obtain x where x: "real_value v = Some x"
      by (auto simp: py_lt_def split: option.splits)
    with 2(1) have "py_lt v (PyFloat (Fin 1)) = Inr False"
      by (simp add: py_lt_def)
    with 2(2) True show ?thesis by (simp add: Camera_setFrameRate_def)
  qed
qed

lemma setFrameRate_10:
  assumes "exposure_is_real cam"
  shows "\<exists>cam'. Camera_setFrameRate fdiv (PyInt 10) cam = Returns True cam' \<and>
           Camera_get ''framerate'' cam' = Inr (PyFloat (Fin 10))"
proof -
  from assms obtain e y where "features cam ''exposuretime'' = Some e" "real_value e = Some y"
    by (auto simp: exposure_is_real_def split: option.splits)
  then show ?thesis
    by (cases "thread cam")
       (simp_all add: Camera_setFrameRate_def py_lt_def Camera_adjustExposureTime_def
          py_truediv_def dict_get_def py_min_def Camera_createThread_def Let_def
          CameraDataThread_setFrameRate_def Camera_get_def Camera_getFrameRate_def)
qed

text \<open>
  C8. \<open>set('framerate', v)\<close> returns \<open>False\<close> and leaves the whole camera, and so the
  stored framerate, unchanged whenever \<open>v\<close> is not a number or \<open>v < 1.0\<close> or
  \<open>v > 50.0\<close>, in particular for 0.5 and 51; \<open>set('framerate', 10)\<close> returns \<open>True\<close>
  and \<open>get('framerate')\<close> is then the float 10.0. The stored exposure time being a
  number is an invariant of the camera (\<open>exposure_is_real_init\<close>, \<open>set_keeps\<close>).
\<close>

theorem setFrameRate_validation:
  "(\<not> is_Number v \<or> py_lt v (PyFloat (Fin 1)) = Inr True
      \<or> py_lt (PyFloat (Fin 50)) v = Inr True \<longrightarrow>
      Camera_set fdiv ''framerate'' v cam = Returns False cam) \<and>
   Camera_set fdiv ''framerate'' (PyFloat (Fin (1 / 2))) cam = Returns False cam \<and>
   Camera_set fdiv ''framerate'' (PyInt 51) cam = Returns False cam \<and>
   (exposure_is_real cam \<longrightarrow>
      (\<exists>cam'. Camera_set fdiv ''framerate'' (PyInt 10) cam = Returns True cam' \<and>
             Camera_get ''framerate'' cam' = Inr (PyFloat (Fin 10))))"
proof -
  have a: "Camera_setFrameRate fdiv (PyFloat (Fin (1 / 2))) cam = Returns False cam"
    by (rule setFrameRate_rejects) (simp add: py_lt_def)
  have b: "Camera_setFrameRate fdiv (PyInt 51) cam = Returns False cam"
    by (rule setFrameRate_rejects) (simp add: py_lt_def)
  show ?thesis
    unfolding set_framerate_eq
    using setFrameRate_rejects [of v fdiv cam] a b setFrameRate_10 [of cam fdiv]
    by blast
qed

text \<open>A fresh camera: a string, 0.5 and 51 are rejected, 10 is accepted.\<close>

theorem setFrameRate_validation_witness:
  "\<not> is_Number (PyStr ''fast'') \<and> exposure_is_real Camera_init \<and>
   Camera_set exact_div ''framerate'' (PyStr ''fast'') Camera_init = Returns False Camera_init \<and>
   Camera_set exact_div ''framerate'' (PyFloat (Fin (1 / 2))) Camera_init = Returns False Camera_init \<and>
   Camera_set exact_div ''framerate'' (PyInt 51) Camera_init = Returns False Camera_init \<and>
   (\<exists>cam'. Camera_set exact_div ''framerate'' (PyInt 10) Camera_init = Returns True cam' \<and>
          Camera_get ''framerate'' cam' = Inr (PyFloat (Fin 10)))"
  using setFrameRate_validation [of "PyStr ''fast''" exact_div Camera_init]
    exposure_is_real_init
  by simp

lemma set_width_eq: "Camera_set fdiv ''width'' v cam = Camera_setWidth v cam"
  by (simp add: Camera_set_def)

lemma set_height_eq: "Camera_set fdiv ''height'' v cam = Camera_setHeight v cam"
  by (simp add: Camera_set_def)

lemma set_start_eq: "Camera_set fdiv ''start'' v cam = Camera_start fdiv cam"
  by (simp add: Camera_set_def)

text \<open>
  C3. On a freshly constructed camera \<open>set('width', 200)\<close> and \<open>set('height', 200)\<close>
  do not return \<open>True\<close>: no producer is created, the call on \<open>self.__thread\<close>, which
  is \<open>None\<close>, raises AttributeError, and the exception leaves \<open>set\<close>.
\<close>

theorem setWidth_fresh_raises:
  "Camera_set fdiv ''width'' (PyInt 200) Camera_init =
     Raises AttributeError (Camera_init\<lparr>features := (features Camera_init)(''width'' \<mapsto> PyInt 200)\<rparr>)
   \<and> Camera_set fdiv ''height'' (PyInt 200) Camera_init =
     Raises AttributeError (Camera_init\<lparr>features := (features Camera_init)(''height'' \<mapsto> PyInt 200)\<rparr>)"
  by (simp add: set_width_eq set_height_eq Camera_setWidth_def Camera_setHeight_def py_lt_def
        Camera_init_def)

text \<open>
  C10. When no producer exists and \<open>set('width', v)\<close> or \<open>set('height', v)\<close> is called
  with a number \<open>v\<close> between 100 and 1000, the call raises AttributeError and the
  camera it leaves behind already stores the new value \<open>int(v)\<close>.
\<close>

theorem setWidth_not_atomic:
  assumes "thread cam = None" "real_value v = Some (Fin r)" "100 \<le> r" "r \<le> 1000"
  shows "Camera_set fdiv ''width'' v cam =
           Raises AttributeError (cam\<lparr>features := (features cam)(''width'' \<mapsto> PyInt \<lfloor>r\<rfloor>)\<rparr>)
         \<and> Camera_set fdiv ''height'' v cam =
           Raises AttributeError (cam\<lparr>features := (features cam)(''height'' \<mapsto> PyInt \<lfloor>r\<rfloor>)\<rparr>)"
proof -
  from assms(2) have n: "is_Number v" by (cases v) simp_all
  from assms(2,3) have i: "py_int v = Inr \<lfloor>r\<rfloor>"
    by (cases v) (auto split: if_splits)
  have lo: "py_lt v (PyInt 100) = Inr False" using assms(2,3) by (simp add: py_lt_def)
  have hi: "py_lt (PyInt 1000) v = Inr False" using assms(2,4) by (simp add: py_lt_def)
  show ?thesis
    using n i lo hi assms(1)
    by (simp add: set_width_eq set_height_eq Camera_setWidth_def Camera_setHeight_def)
qed

text \<open>A fresh camera and the value 250.5: the stored 640 and 512 become 250.\<close>

theorem setWidth_not_atomic_witness:
  "thread Camera_init = None \<and> real_value (PyFloat (Fin (501 / 2))) = Some (Fin (501 / 2))
   \<and> (100::real) \<le> 501 / 2 \<and> (501 / 2 :: real) \<le> 1000
   \<and> Camera_get ''width'' Camera_init = Inr (PyInt 640)
   \<and> (\<exists>cam'. Camera_set exact_div ''width'' (PyFloat (Fin (501 / 2))) Camera_init
               = Raises AttributeError cam'
             \<and> Camera_get ''width'' cam' = Inr (PyInt 250))
   \<and> Camera_get ''height'' Camera_init = Inr (PyInt 512)
   \<and> (\<exists>cam'. Camera_set exact_div ''height'' (PyFloat (Fin (501 / 2))) Camera_init
               = Raises AttributeError cam'
             \<and> Camera_get ''height'' cam' = Inr (PyInt 250))"
  using setWidth_not_atomic [of Camera_init "PyFloat (Fin (501 / 2))" "501 / 2" exact_div]
  by (simp add: Camera_init_def Camera_get_def Camera_getWidth_def Camera_getHeight_def
        dict_get_def)

text \<open>No exception leaves \<open>__start\<close>, and the first \<open>start\<close> on a fresh camera succeeds.\<close>

lemma Camera_start_never_raises: "Camera_start fdiv cam \<noteq> Raises e cam'"
  by (simp add: Camera_start_def split: outcome.splits)


lemma first_start:
  "Camera_start fdiv Camera_init =
     Returns True
       (Camera_init\<lparr>features := (features Camera_init)(''isstarted'' \<mapsto> PyBool True),
          thread := Some (CameraDataThread_init\<lparr>
             frame_time_sec := fdiv (Fin 1) (Fin 10),
             exposure_time := PyInt 1,
             is_started := True, Thread_started := True, Thread_alive := True\<rparr>)\<rparr>)"
  by (simp add: Camera_start_def Camera_start_try_def Camera_createThread_def Camera_init_def
        Camera_get_def Camera_getFrameRate_def Camera_getExposureTime_def Camera_getWidth_def
        Camera_getHeight_def dict_get_def CameraDataThread_setFrameRate_def py_truediv_def
        CameraDataThread_setExposureTime_def CameraDataThread_setWidth_def
        CameraDataThread_setHeight_def RingBuffer_sync_def RingBuffer_init_def
        CameraDataThread_start_def CameraDataThread_stop_def Thread_start_def
        CameraDataThread_init_def Let_def)

text \<open>
  C2. A second \<open>start\<close> without a \<open>stop\<close> in between: \<open>Thread.start\<close> raises
  RuntimeError inside the \<open>try\<close>, \<open>set('start')\<close> returns \<open>False\<close> and does not raise,
  but \<open>get('isstarted')\<close> is \<open>True\<close> afterwards, and the producer is left with
  \<open>is_started\<close> set although its \<open>run\<close> has ended.
\<close>

theorem second_start_leaves_isstarted_true:
  "\<exists>cam1 cam2 t.
     Camera_set fdiv ''start'' PyNone Camera_init = Returns True cam1 \<and>
     Camera_start_try fdiv cam1 = Raises RuntimeError cam2 \<and>
     Camera_set fdiv ''start'' PyNone cam1 = Returns False cam2 \<and>
     Camera_get ''isstarted'' cam2 = Inr (PyBool True) \<and>
     thread cam2 = Some t \<and> is_started t \<and> \<not> Thread_alive t"
  unfolding set_start_eq first_start
  by (simp add: Camera_start_def Camera_start_try_def Camera_createThread_def Camera_init_def
        Camera_get_def Camera_getFrameRate_def Camera_getExposureTime_def Camera_getWidth_def
        Camera_getHeight_def Camera_isStarted_def dict_get_def CameraDataThread_setFrameRate_def py_truediv_def
        CameraDataThread_setExposureTime_def CameraDataThread_setWidth_def
        CameraDataThread_setHeight_def RingBuffer_sync_def RingBuffer_init_def
        CameraDataThread_start_def CameraDataThread_stop_def Thread_start_def Thread_join_def
        CameraDataThread_init_def Let_def)

text \<open>
  C9 as stated fails: with \<open>rand_value = 0\<close> the skip branch is taken, and with the
  second draw \<open>0\<close> the increment over the previous frame number is 1, not at least 2.
\<close>

theorem skip_branch_counterexample:
  "(0::int) < 650 \<and>
   \<not> (2 \<le> CameraDataThread_generageFrameNumber 0 0 CameraDataThread_init
            - frame_number_thread CameraDataThread_init)"
  by (simp add: CameraDataThread_generageFrameNumber_def)

text \<open>
  C9, amended. For draws in their ranges the increment over the previous frame number
  lies in \<open>{1, ..., 5}\<close>; it is 1 when the skip branch is not taken, and \<open>1 + skip\<close>
  with \<open>skip\<close> in \<open>{0, ..., 4}\<close> when it is taken, so that it can be 1 there too.
\<close>

theorem frame_number_increment:
  assumes "0 \<le> rand_value" "rand_value < 65535" "0 \<le> skip" "skip < 5"
  shows "CameraDataThread_generageFrameNumber rand_value skip t - frame_number_thread t
           \<in> {1, 2, 3, 4, 5}
         \<and> (\<not> rand_value < 650 \<longrightarrow>
              CameraDataThread_generageFrameNumber rand_value skip t = frame_number_thread t + 1)
         \<and> (rand_value < 650 \<longrightarrow>
              CameraDataThread_generageFrameNumber rand_value skip t
                = frame_number_thread t + 1 + skip)"
  using assms by (auto simp: CameraDataThread_generageFrameNumber_def)

text \<open>The skip branch with the largest second draw.\<close>

theorem frame_number_increment_witness:
  "(0::int) \<le> 3 \<and> (3::int) < 65535 \<and> (0::int) \<le> 4 \<and> (4::int) < 5
   \<and> CameraDataThread_generageFrameNumber 3 4 CameraDataThread_init = 6
   \<and> frame_number_thread CameraDataThread_init = 1"
  using frame_number_increment [of 3 4 CameraDataThread_init]
  by (simp add: CameraDataThread_init_def)

end
